theory Spec2Isabelle
  imports
    Complex_Main
    "HOL-Library.AList"
    "HOL-Library.Multiset"
    "HOL-Library.Sublist"
    "HOL-Library.Product_Lexorder"
begin

section \<open>Screen scanner \<open>scripts/scan.py\<close>: detection boxes and overlap suppression\<close>


definition IOU_THRESHOLD :: real where
  "IOU_THRESHOLD = 6 / 10"

definition USE_MULTISCALE :: bool where
  "USE_MULTISCALE = True"

definition GRAYSCALE :: bool where
  "GRAYSCALE = True"

definition SCALE_FACTORS :: "real list" where
  "SCALE_FACTORS = [75 / 100, 85 / 100, 1, 115 / 100, 13 / 10]"

definition MULTISCALE_THRESHOLD :: real where
  "MULTISCALE_THRESHOLD = 88 / 100"

definition MIN_TEMPLATE_WH :: int where
  "MIN_TEMPLATE_WH = 12"

text \<open>
  A detection box (\<open>_Box\<close>, and pyscreeze's \<open>Box\<close>): four integers in screen
  coordinates. The field \<open>top\<close> of the source is \<open>top_y\<close> here, \<open>top\<close> being a
  constant of HOL.
\<close>

record box =
  left :: int
  top_y :: int
  width :: int
  height :: int

text \<open>\<open>_rect_iou(a, b)\<close>: intersection area over union area, \<open>0.0\<close> when the union is 0.\<close>

definition rect_iou :: "box \<Rightarrow> box \<Rightarrow> real" where
  "rect_iou a b =
     (let ax1 = left a; ay1 = top_y a; aw = width a; ah = height a;
          bx1 = left b; by1 = top_y b; bw = width b; bh = height b;
          ax2 = ax1 + aw; ay2 = ay1 + ah;
          bx2 = bx1 + bw; by2 = by1 + bh;
          inter_w = max 0 (min ax2 bx2 - max ax1 bx1);
          inter_h = max 0 (min ay2 by2 - max ay1 by1);
          inter = inter_w * inter_h;
          union = aw * ah + bw * bh - inter
      in if union \<noteq> 0 then real_of_int inter / real_of_int union else 0)"

text \<open>
  The greedy loop of \<open>_dedup_overlaps\<close>: \<open>kept\<close> is the accumulator, a box is appended
  when its ratio with every box kept so far is below the threshold.
\<close>

fun dedup_loop :: "real \<Rightarrow> box list \<Rightarrow> box list \<Rightarrow> box list" where
  "dedup_loop iou_threshold kept [] = kept"
| "dedup_loop iou_threshold kept (b # bs) =
     dedup_loop iou_threshold
       (if list_all (\<lambda>k. rect_iou b k < iou_threshold) kept then kept @ [b] else kept) bs"

text \<open>
  \<open>_dedup_overlaps(boxes, iou_threshold)\<close>. Python's \<open>sorted\<close> with the key
  \<open>(b.left, b.top)\<close> is a stable sort on the lexicographic order of the pairs, which
  is what \<open>sort_key\<close> computes.
\<close>

definition sort_pos :: "box \<Rightarrow> int \<times> int" where
  "sort_pos b = (left b, top_y b)"

definition dedup_overlaps :: "box list \<Rightarrow> real \<Rightarrow> box list" where
  "dedup_overlaps boxes iou_threshold =
     (if boxes = [] then boxes
      else dedup_loop iou_threshold [] (sort_key sort_pos boxes))"


section \<open>The multi-scale Matcher\<close>

text \<open>
  \<open>int(x)\<close> on a float: truncation towards zero.
\<close>

definition py_int :: "real \<Rightarrow> int" where
  "py_int x = (if 0 \<le> x then \<lfloor>x\<rfloor> else \<lceil>x\<rceil>)"

text \<open>
  \<open>np.where(res >= thr)\<close> on a two-dimensional score map with \<open>rows\<close> rows and
  \<open>cols\<close> columns: the index pairs \<open>(y, x)\<close> in row-major order.
\<close>

definition np_where_ge :: "(nat \<Rightarrow> nat \<Rightarrow> real) \<Rightarrow> nat \<Rightarrow> nat \<Rightarrow> real \<Rightarrow> (nat \<times> nat) list" where
  "np_where_ge res rows cols thr =
     concat (map (\<lambda>y. map (\<lambda>x. (y, x)) (filter (\<lambda>x. thr \<le> res y x) [0..<cols])) [0..<rows])"

text \<open>
  The body of the loop over \<open>SCALE_FACTORS\<close> in \<open>_count_icons_on_screen_multiscale\<close>
  (lines 259 to 277), for one scale \<open>s\<close>: the boxes this scale appends. The capture
  region is \<open>leftRegion = (x, y, width, height)\<close>; the screenshot of the region has the
  region's size, so \<open>W_img\<close> and \<open>H_img\<close> are its width and height. \<open>w\<close> and \<open>h\<close> are
  the template's width and height. OpenCV's \<open>cv2.matchTemplate\<close> is not part of the
  repository and is a parameter: \<open>matchTemplate s\<close> is the score map for the template
  resized at scale \<open>s\<close>, and, as OpenCV documents, the map of a \<open>w_s \<times> h_s\<close> template
  on a \<open>W_img \<times> H_img\<close> image has \<open>H_img - h_s + 1\<close> rows and \<open>W_img - w_s + 1\<close>
  columns. The scale factors are reals here; the bounds proved below hold for whatever
  value the rounding of \<open>int(w * s)\<close> gives.
\<close>

definition boxes_at_scale ::
  "int \<times> int \<times> int \<times> int \<Rightarrow> int \<Rightarrow> int \<Rightarrow> (real \<Rightarrow> nat \<Rightarrow> nat \<Rightarrow> real) \<Rightarrow> real \<Rightarrow> box list" where
  "boxes_at_scale leftRegion w h matchTemplate s =
     (case leftRegion of (rx, ry, W_img, H_img) \<Rightarrow>
        (let w_s = max 1 (py_int (real_of_int w * s));
             h_s = max 1 (py_int (real_of_int h * s))
         in if w_s < MIN_TEMPLATE_WH \<or> h_s < MIN_TEMPLATE_WH then []
            else if w_s > W_img \<or> h_s > H_img then []
            else map (\<lambda>(y, x). \<lparr>left = rx + int x, top_y = ry + int y, width = w_s, height = h_s\<rparr>)
                   (np_where_ge (matchTemplate s) (nat (H_img - h_s + 1)) (nat (W_img - w_s + 1))
                      MULTISCALE_THRESHOLD)))"

text \<open>The loop over the scale factors, \<open>boxes\<close> being the list the loop appends to.\<close>

fun multiscale_boxes ::
  "int \<times> int \<times> int \<times> int \<Rightarrow> int \<Rightarrow> int \<Rightarrow> (real \<Rightarrow> nat \<Rightarrow> nat \<Rightarrow> real) \<Rightarrow> real list \<Rightarrow> box list \<Rightarrow> box list" where
  "multiscale_boxes leftRegion w h matchTemplate [] boxes = boxes"
| "multiscale_boxes leftRegion w h matchTemplate (s # ss) boxes =
     multiscale_boxes leftRegion w h matchTemplate ss
       (boxes @ boxes_at_scale leftRegion w h matchTemplate s)"

text \<open>
  \<open>_count_icons_on_screen_multiscale\<close> with OpenCV present and the template loaded: the
  number of boxes left after de-duplication. (The double click of
  \<open>highlight_first_match\<close> is left out.)
\<close>

definition count_icons_on_screen_multiscale ::
  "int \<times> int \<times> int \<times> int \<Rightarrow> int \<Rightarrow> int \<Rightarrow> (real \<Rightarrow> nat \<Rightarrow> nat \<Rightarrow> real) \<Rightarrow> nat" where
  "count_icons_on_screen_multiscale leftRegion w h matchTemplate =
     length (dedup_overlaps (multiscale_boxes leftRegion w h matchTemplate SCALE_FACTORS [])
               IOU_THRESHOLD)"


section \<open>JSON documents and the result store\<close>

text \<open>
  A value read by \<open>json.load\<close>. A Python dict (a JSON object) is an association
  list in insertion order; \<open>map_of\<close> is the lookup, \<open>AList.update\<close> is the
  assignment \<open>d[k] = v\<close> (in place for a key that is there, at the end for a new
  one). The documents \<open>scan.py\<close> writes hold integers only, so numbers are integers.
\<close>

datatype json =
    JNull
  | JBool bool
  | JInt int
  | JStr string
  | JList "json list"
  | JObj "(string \<times> json) list"

type_synonym dict = "(string \<times> json) list"

text \<open>
  The exceptions the modelled code can raise. \<open>KeyboardInterrupt\<close> is the only one
  that is not an \<open>Exception\<close>, so \<open>except Exception\<close> does not catch it.
\<close>

datatype error =
    TypeError
  | AttributeError
  | ValueError
  | FileNotFoundError
  | FailSafeException
  | KeyboardInterrupt

text \<open>
  What is at a path on disk: no file, a file that cannot be opened or is not JSON
  (\<open>open\<close> or \<open>json.load\<close> raises), or a file holding a JSON value.
\<close>

datatype stored_file = Missing | Unreadable | Parsed json

text \<open>
  Truth value of a JSON value in Python (\<open>x or y\<close>, \<open>if x\<close>), and \<open>a or b\<close>.
\<close>

fun truthy :: "json \<Rightarrow> bool" where
  "truthy JNull = False"
| "truthy (JBool b) = b"
| "truthy (JInt n) = (n \<noteq> 0)"
| "truthy (JStr s) = (s \<noteq> [])"
| "truthy (JList xs) = (xs \<noteq> [])"
| "truthy (JObj d) = (d \<noteq> [])"

definition py_or :: "json \<Rightarrow> json \<Rightarrow> json" where
  "py_or a b = (if truthy a then a else b)"

text \<open>
  \<open>d.get(k)\<close>, which is \<open>None\<close> for a missing key, and \<open>d.update(other)\<close> for a
  dict \<open>other\<close>.
\<close>

definition dict_get :: "dict \<Rightarrow> string \<Rightarrow> json" where
  "dict_get d k = (case map_of d k of Some v \<Rightarrow> v | None \<Rightarrow> JNull)"

definition dict_update :: "dict \<Rightarrow> dict \<Rightarrow> dict" where
  "dict_update d other = fold (\<lambda>(k, v). AList.update k v) other d"

text \<open>
  \<open>needle in hay\<close> for two strings: substring test.
\<close>

fun str_contains :: "string \<Rightarrow> string \<Rightarrow> bool" where
  "str_contains needle [] = (needle = [])"
| "str_contains needle (c # cs) = (prefix needle (c # cs) \<or> str_contains needle cs)"

text \<open>
  Lines 375 to 382 of \<open>_load_all_results\<close>: \<open>data = json.load(f) or {}\<close>, and
  \<open>{}\<close> when the file is missing or reading it raises.
\<close>

definition json_load_or_empty :: "stored_file \<Rightarrow> json" where
  "json_load_or_empty f =
     (case f of
        Missing \<Rightarrow> JObj []
      | Unreadable \<Rightarrow> JObj []
      | Parsed j \<Rightarrow> if truthy j then j else JObj [])"

definition empty_store :: dict where
  "empty_store = [(''profiles'', JObj []), (''activeProfile'', JStr ''default'')]"

definition reserved_keys :: "string set" where
  "reserved_keys = {''profiles'', ''activeProfile''}"

text \<open>
  \<open>'profiles' in data and isinstance(data.get('profiles'), dict)\<close> on a dict.
\<close>

definition has_profiles_dict :: "dict \<Rightarrow> bool" where
  "has_profiles_dict d = (case map_of d ''profiles'' of Some (JObj ps) \<Rightarrow> True | _ \<Rightarrow> False)"

text \<open>
  \<open>_load_all_results(path)\<close>. The tests at lines 383 and 386 are outside the \<open>try\<close>
  and assume a dict. On a JSON document whose root is a string or a list the operator
  \<open>in\<close> is a substring or membership test, and \<open>data.get\<close> (AttributeError) or
  \<open>wrapped.update(data)\<close> (ValueError; TypeError when an earlier element of the list
  is not a sequence) raises when it finds the key; on a number or \<open>true\<close> the
  operator \<open>in\<close> itself raises TypeError.
\<close>

definition load_all_results :: "stored_file \<Rightarrow> error + dict" where
  "load_all_results f =
     (case json_load_or_empty f of
        JObj d \<Rightarrow>
          if has_profiles_dict d then Inr d
          else if map_of d ''counts'' \<noteq> None then
            Inr (dict_update
                   [(''profiles'', JObj [(''default'', JObj d)]),
                    (''activeProfile'', JStr ''default'')] d)
          else Inr empty_store
      | JStr s \<Rightarrow>
          if str_contains ''profiles'' s then Inl AttributeError
          else if str_contains ''counts'' s then Inl ValueError
          else Inr empty_store
      | JList xs \<Rightarrow>
          if JStr ''profiles'' \<in> set xs then Inl AttributeError
          else if JStr ''counts'' \<in> set xs then Inl ValueError
          else Inr empty_store
      | _ \<Rightarrow> Inl TypeError)"

text \<open>
  \<open>save_results_profile(path, profile, payload)\<close>: the new content of the file at
  \<open>path\<close>. The document is written to a temporary file that then replaces the file,
  so the file holds either the old or the new document; \<open>json.load\<close> reads back the
  document \<open>json.dump\<close> wrote. \<open>profiles[profile] = payload\<close> raises TypeError when
  \<open>profiles\<close> is not a dict.
\<close>

definition save_results_profile :: "stored_file \<Rightarrow> string \<Rightarrow> dict \<Rightarrow> error + stored_file" where
  "save_results_profile f profile payload =
     (case load_all_results f of
        Inl e \<Rightarrow> Inl e
      | Inr d \<Rightarrow>
          (case py_or (dict_get d ''profiles'') (JObj []) of
             JObj profiles \<Rightarrow>
               (let profiles1 = AList.update profile (JObj payload) profiles;
                    d1 = AList.update ''profiles'' (JObj profiles1) d;
                    d2 = AList.update ''activeProfile'' (JStr profile) d1;
                    d3 = AList.restrict reserved_keys d2;
                    d4 = dict_update d3 payload
                in Inr (Parsed (JObj d4)))
           | _ \<Rightarrow> Inl TypeError))"

text \<open>
  \<open>make_payload(names, counts, scanned)\<close>. \<open>counts\<close> is the dict of the scan loop,
  in insertion order, which \<open>counts.items()\<close> follows. The clock
  (\<open>datetime.utcnow().isoformat()\<close>) and the presence of OpenCV
  (\<open>cv2 is not None\<close>) are parameters.
\<close>

definition make_payload ::
  "string \<Rightarrow> bool \<Rightarrow> string list \<Rightarrow> (string \<times> int) list \<Rightarrow> nat \<Rightarrow> dict" where
  "make_payload now cv2_available names counts scanned =
     (let needed = map fst (filter (\<lambda>(n, k). k \<le> 0) counts);
          duplicates = map (\<lambda>(n, k). (n, k, max 0 (k - 1))) (filter (\<lambda>(n, k). k > 1) counts);
          total_found_unique = length (filter (\<lambda>(n, k). k \<ge> 1) counts);
          total_found_items = sum_list (map snd counts)
      in [(''timestamp'', JStr (now @ ''Z'')),
          (''scanned'', JInt (int scanned)),
          (''total'', JInt (int (length names))),
          (''counts'', JObj (map (\<lambda>(n, k). (n, JInt k)) counts)),
          (''needed'', JList (map JStr needed)),
          (''duplicates'',
             JList (map (\<lambda>(n, k, e).
               JObj [(''name'', JStr n), (''count'', JInt k), (''extra'', JInt e)]) duplicates)),
          (''totalDuplicates'', JInt (sum_list (map (\<lambda>(n, k, e). e) duplicates))),
          (''totalFound'', JInt (int total_found_unique)),
          (''totalFoundItems'', JInt total_found_items),
          (''note'', JStr ''F8=start (capture search bar). F10=pause/resume. Move mouse to top-left to abort.''),
          (''matchMode'',
             JStr (if USE_MULTISCALE \<and> cv2_available then ''cv2_multiscale'' else ''pyautogui_exact'')),
          (''grayscale'', JBool GRAYSCALE)])"


section \<open>The profile resolver\<close>













section \<open>The scan loop of \<open>main\<close>\<close>
















text \<open>
  A score map used in the examples: 1 at row \<open>y0\<close>, column \<open>x0\<close>, at every scale, and 0
  elsewhere.
\<close>

definition peak_at :: "nat \<Rightarrow> nat \<Rightarrow> real \<Rightarrow> nat \<Rightarrow> nat \<Rightarrow> real" where
  "peak_at y0 x0 s y x = (if y = y0 \<and> x = x0 then 1 else 0)"


section \<open>Properties of the Deduplicator\<close>

lemma rect_iou_sym: "rect_iou a b = rect_iou b a"
  by (simp add: rect_iou_def Let_def min.commute max.commute add.commute)

lemma dedup_loop_shape:
  "\<exists>ys. dedup_loop t kept bs = kept @ ys \<and> subseq ys bs"
proof (induction bs arbitrary: kept)
  case Nil
  show ?case by simp
next
  case (Cons b bs)
  show ?case
  proof (cases "list_all (\<lambda>k. rect_iou b k < t) kept")
    case True
    from Cons.IH [of "kept @ [b]"] obtain ys where
      "dedup_loop t (kept @ [b]) bs = (kept @ [b]) @ ys" "subseq ys bs" by blast
    with True show ?thesis by (intro exI [of _ "b # ys"]) simp
  next
    case False
    from Cons.IH [of kept] obtain ys where
      "dedup_loop t kept bs = kept @ ys" "subseq ys bs" by blast
    with False show ?thesis by (intro exI [of _ ys]) auto
  qed
qed

lemma dedup_loop_below:
  "sorted_wrt (\<lambda>k b. rect_iou b k < t) kept \<Longrightarrow>
   sorted_wrt (\<lambda>k b. rect_iou b k < t) (dedup_loop t kept bs)"
proof (induction bs arbitrary: kept)
  case Nil
  then show ?case by simp
next
  case (Cons b bs)
  show ?case
  proof (cases "list_all (\<lambda>k. rect_iou b k < t) kept")
    case True
    with Cons.prems have "sorted_wrt (\<lambda>k b. rect_iou b k < t) (kept @ [b])"
      by (simp add: sorted_wrt_append list_all_iff)
    from Cons.IH [OF this] True show ?thesis by simp
  next
    case False
    with Cons.IH [OF Cons.prems] show ?thesis by simp
  qed
qed

lemma subseq_mset_le: "subseq xs ys \<Longrightarrow> mset xs \<subseteq># mset ys"
proof (induction rule: list_emb.induct)
  case (list_emb_Nil ys)
  show ?case by simp
next
  case (list_emb_Cons xs ys y)
  then have "mset xs \<subseteq># mset ys" by simp
  also have "mset ys \<subseteq># mset (y # ys)" by simp
  finally show ?case .
next
  case (list_emb_Cons2 x y xs ys)
  then show ?case by simp
qed

lemma dedup_overlaps_subseq:
  "subseq (dedup_overlaps boxes t) (sort_key sort_pos boxes)"
proof (cases "boxes = []")
  case True
  then show ?thesis by (simp add: dedup_overlaps_def)
next
  case False
  from dedup_loop_shape [of t "[]" "sort_key sort_pos boxes"] False
  show ?thesis by (auto simp: dedup_overlaps_def)
qed

lemma dedup_overlaps_below:
  "sorted_wrt (\<lambda>k b. rect_iou b k < t) (dedup_overlaps boxes t)"
proof (cases "boxes = []")
  case True
  then show ?thesis by (simp add: dedup_overlaps_def)
next
  case False
  from dedup_loop_below [of t "[]" "sort_key sort_pos boxes"] False
  show ?thesis by (simp add: dedup_overlaps_def)
qed

lemma sort_key_perm_inj:
  assumes "mset xs = mset ys" "inj_on f (set xs)"
  shows "sort_key f xs = sort_key f ys"
  using assms by (intro sort_key_inj_key_eq) simp_all

text \<open>
  C3, as stated, fails. The sort key is the position \<open>(left, top)\<close> alone and the sort
  is stable, so two candidates at the same position (the same match location found at
  two scales, hence with different sizes) stay in their input order, and the greedy loop
  keeps whichever comes first. The two orderings of the boxes \<open>(0,0,10,10)\<close> and
  \<open>(0,0,10,12)\<close>, whose overlap ratio is \<open>5/6\<close>, give different kept sets.
\<close>

theorem dedup_overlaps_order_dependent:
  "mset [\<lparr>left = 0, top_y = 0, width = 10, height = 10\<rparr>,
         \<lparr>left = 0, top_y = 0, width = 10, height = 12\<rparr>]
   = mset [\<lparr>left = 0, top_y = 0, width = 10, height = 12\<rparr>,
           \<lparr>left = 0, top_y = 0, width = 10, height = 10\<rparr>]
   \<and> set (dedup_overlaps [\<lparr>left = 0, top_y = 0, width = 10, height = 10\<rparr>,
                          \<lparr>left = 0, top_y = 0, width = 10, height = 12\<rparr>] IOU_THRESHOLD)
     = {\<lparr>left = 0, top_y = 0, width = 10, height = 10\<rparr>}
   \<and> set (dedup_overlaps [\<lparr>left = 0, top_y = 0, width = 10, height = 12\<rparr>,
                          \<lparr>left = 0, top_y = 0, width = 10, height = 10\<rparr>] IOU_THRESHOLD)
     = {\<lparr>left = 0, top_y = 0, width = 10, height = 12\<rparr>}
   \<and> set (dedup_overlaps [\<lparr>left = 0, top_y = 0, width = 10, height = 10\<rparr>,
                          \<lparr>left = 0, top_y = 0, width = 10, height = 12\<rparr>] IOU_THRESHOLD)
     \<noteq> set (dedup_overlaps [\<lparr>left = 0, top_y = 0, width = 10, height = 12\<rparr>,
                            \<lparr>left = 0, top_y = 0, width = 10, height = 10\<rparr>] IOU_THRESHOLD)"
  by (simp add: dedup_overlaps_def sort_pos_def rect_iou_def IOU_THRESHOLD_def)

text \<open>
  C3, amended: when the candidate boxes have pairwise distinct positions
  \<open>(left, top)\<close>, every two orderings of them give the identical kept list (hence the
  identical kept set), for every threshold.
\<close>

theorem dedup_overlaps_permutation_distinct_positions:
  assumes "mset xs = mset ys" and "inj_on sort_pos (set xs)"
  shows "dedup_overlaps xs t = dedup_overlaps ys t"
proof -
  from assms have "sort_key sort_pos xs = sort_key sort_pos ys"
    by (rule sort_key_perm_inj)
  moreover from assms(1) have "xs = [] \<longleftrightarrow> ys = []"
    by (metis mset_zero_iff)
  ultimately show ?thesis by (auto simp: dedup_overlaps_def)
qed

theorem dedup_overlaps_permutation_distinct_positions_witness:
  "dedup_overlaps [\<lparr>left = 0, top_y = 0, width = 10, height = 10\<rparr>,
                   \<lparr>left = 4, top_y = 0, width = 10, height = 10\<rparr>,
                   \<lparr>left = 0, top_y = 2, width = 10, height = 10\<rparr>] IOU_THRESHOLD
   = dedup_overlaps [\<lparr>left = 0, top_y = 2, width = 10, height = 10\<rparr>,
                     \<lparr>left = 4, top_y = 0, width = 10, height = 10\<rparr>,
                     \<lparr>left = 0, top_y = 0, width = 10, height = 10\<rparr>] IOU_THRESHOLD"
proof -
  have m: "mset [\<lparr>left = 0, top_y = 0, width = 10, height = 10\<rparr>,
                 \<lparr>left = 4, top_y = 0, width = 10, height = 10\<rparr>,
                 \<lparr>left = 0, top_y = 2, width = 10, height = 10\<rparr>]
         = mset [\<lparr>left = 0, top_y = 2, width = 10, height = 10\<rparr>,
                 \<lparr>left = 4, top_y = 0, width = 10, height = 10\<rparr>,
                 \<lparr>left = 0, top_y = 0, width = 10, height = 10\<rparr>]"
    by simp
  have i: "inj_on sort_pos (set [\<lparr>left = 0, top_y = 0, width = 10, height = 10\<rparr>,
                 \<lparr>left = 4, top_y = 0, width = 10, height = 10\<rparr>,
                 \<lparr>left = 0, top_y = 2, width = 10, height = 10\<rparr>])"
    by (simp add: sort_pos_def)
  from dedup_overlaps_permutation_distinct_positions [OF m i] show ?thesis .
qed

text \<open>
  C4: for every input list and every threshold the kept boxes are a selection of the
  input boxes (a sub-multiset of the input, in the order of the position-sorted input),
  so there are at most as many as in the input, and any two kept boxes at different
  places of the output have an overlap ratio strictly below the threshold.
\<close>

theorem dedup_overlaps_selection_and_separated:
  "mset (dedup_overlaps boxes t) \<subseteq># mset boxes \<and>
   subseq (dedup_overlaps boxes t) (sort_key sort_pos boxes) \<and>
   length (dedup_overlaps boxes t) \<le> length boxes \<and>
   (\<forall>i j. i < length (dedup_overlaps boxes t) \<and> j < length (dedup_overlaps boxes t) \<and> i \<noteq> j \<longrightarrow>
      rect_iou (dedup_overlaps boxes t ! i) (dedup_overlaps boxes t ! j) < t)"
proof -
  let ?out = "dedup_overlaps boxes t"
  have sub: "subseq ?out (sort_key sort_pos boxes)" by (rule dedup_overlaps_subseq)
  then have ms: "mset ?out \<subseteq># mset boxes"
    using subseq_mset_le [of ?out "sort_key sort_pos boxes"] by simp
  have len: "length ?out \<le> length boxes"
    using ms size_mset_mono [of "mset ?out" "mset boxes"] by simp
  have sw: "sorted_wrt (\<lambda>k b. rect_iou b k < t) ?out" by (rule dedup_overlaps_below)
  have pw: "rect_iou (?out ! i) (?out ! j) < t"
    if "i < length ?out" "j < length ?out" "i \<noteq> j" for i j
  proof (cases "i < j")
    case True
    with sw that have "rect_iou (?out ! j) (?out ! i) < t"
      by (simp add: sorted_wrt_iff_nth_less)
    then show ?thesis by (simp add: rect_iou_sym)
  next
    case False
    with that have "j < i" by simp
    with sw that show ?thesis by (simp add: sorted_wrt_iff_nth_less)
  qed
  from sub ms len pw show ?thesis by blast
qed

theorem dedup_overlaps_selection_and_separated_witness:
  "dedup_overlaps [\<lparr>left = 20, top_y = 0, width = 10, height = 10\<rparr>,
                   \<lparr>left = 0, top_y = 0, width = 10, height = 10\<rparr>,
                   \<lparr>left = 0, top_y = 0, width = 10, height = 12\<rparr>] IOU_THRESHOLD
     = [\<lparr>left = 0, top_y = 0, width = 10, height = 10\<rparr>,
        \<lparr>left = 20, top_y = 0, width = 10, height = 10\<rparr>]
   \<and> rect_iou \<lparr>left = 0, top_y = 0, width = 10, height = 10\<rparr>
               \<lparr>left = 20, top_y = 0, width = 10, height = 10\<rparr> < IOU_THRESHOLD"
proof -
  let ?in = "[\<lparr>left = 20, top_y = 0, width = 10, height = 10\<rparr>,
              \<lparr>left = 0, top_y = 0, width = 10, height = 10\<rparr>,
              \<lparr>left = 0, top_y = 0, width = 10, height = 12\<rparr>]"
  have out: "dedup_overlaps ?in IOU_THRESHOLD
     = [\<lparr>left = 0, top_y = 0, width = 10, height = 10\<rparr>,
        \<lparr>left = 20, top_y = 0, width = 10, height = 10\<rparr>]"
    by (simp add: dedup_overlaps_def sort_pos_def rect_iou_def IOU_THRESHOLD_def)
  then have idx: "(0::nat) < length (dedup_overlaps ?in IOU_THRESHOLD) \<and>
      (1::nat) < length (dedup_overlaps ?in IOU_THRESHOLD) \<and> (0::nat) \<noteq> 1"
    by simp
  from dedup_overlaps_selection_and_separated [of ?in IOU_THRESHOLD] idx
  have "rect_iou (dedup_overlaps ?in IOU_THRESHOLD ! 0) (dedup_overlaps ?in IOU_THRESHOLD ! 1)
          < IOU_THRESHOLD"
    by blast
  with out show ?thesis by simp
qed


section \<open>Properties of the result store\<close>

lemma map_of_dict_update:
  "map_of (dict_update d other) = map_of d ++ map_of (rev other)"
proof (induction other arbitrary: d)
  case Nil
  show ?case by (simp add: dict_update_def)
next
  case (Cons kv other)
  obtain k v where kv: "kv = (k, v)" by (cases kv)
  have "dict_update d (kv # other) = dict_update (AList.update k v d) other"
    by (simp add: dict_update_def kv)
  then have "map_of (dict_update d (kv # other)) = (map_of d)(k \<mapsto> v) ++ map_of (rev other)"
    by (simp only: Cons.IH AList.update_conv')
  also have "\<dots> = map_of d ++ map_of (rev (kv # other))"
    by (simp add: kv)
  finally show ?case .
qed

lemma map_of_dict_update_notin:
  "k \<notin> fst ` set other \<Longrightarrow> map_of (dict_update d other) k = map_of d k"
proof -
  assume "k \<notin> fst ` set other"
  then have "map_of (rev other) k = None" by (simp add: map_of_eq_None_iff)
  then show ?thesis by (simp add: map_of_dict_update map_add_def)
qed

lemma map_of_rev_distinct:
  assumes "distinct (map fst xs)"
  shows "map_of (rev xs) = map_of xs"
proof -
  from assms have "distinct (map fst (rev xs))" by (simp add: rev_map [symmetric])
  with assms show ?thesis by (simp add: map_of_inject_set)
qed

lemma map_of_dict_update_distinct:
  "distinct (map fst other) \<Longrightarrow> map_of (dict_update d other) = map_of d ++ map_of other"
  by (simp add: map_of_dict_update map_of_rev_distinct)

lemma save_results_profile_Inr:
  assumes "save_results_profile f p v = Inr f'"
  shows "\<exists>d ps. load_all_results f = Inr d \<and>
           py_or (dict_get d ''profiles'') (JObj []) = JObj ps \<and>
           f' = Parsed (JObj (dict_update
                  (AList.restrict reserved_keys
                     (AList.update ''activeProfile'' (JStr p)
                        (AList.update ''profiles'' (JObj (AList.update p (JObj v) ps)) d))) v))"
  using assms
  by (auto simp: save_results_profile_def Let_def split: sum.splits json.splits)

lemma save_results_profile_ok:
  assumes "load_all_results f = Inr d"
    and "py_or (dict_get d ''profiles'') (JObj []) = JObj ps"
  shows "save_results_profile f p v =
           Inr (Parsed (JObj (dict_update
                  (AList.restrict reserved_keys
                     (AList.update ''activeProfile'' (JStr p)
                        (AList.update ''profiles'' (JObj (AList.update p (JObj v) ps)) d))) v)))"
  using assms by (simp add: save_results_profile_def Let_def)

lemma written_document_lookup:
  fixes d ps p v
  defines "d4 \<equiv> dict_update
                  (AList.restrict reserved_keys
                     (AList.update ''activeProfile'' (JStr p)
                        (AList.update ''profiles'' (JObj (AList.update p (JObj v) ps)) d))) v"
  shows "k \<notin> fst ` set v \<Longrightarrow>
           map_of d4 k =
             (if k = ''activeProfile'' then Some (JStr p)
              else if k = ''profiles'' then Some (JObj (AList.update p (JObj v) ps))
              else None)"
  unfolding d4_def
  by (simp add: map_of_dict_update_notin restr_conv' update_conv' reserved_keys_def restrict_map_def)

lemma load_profiled:
  assumes "map_of d ''profiles'' = Some (JObj ps)"
  shows "load_all_results (Parsed (JObj d)) = Inr d"
proof -
  from assms have "d \<noteq> []" by auto
  with assms show ?thesis
    by (simp add: load_all_results_def json_load_or_empty_def has_profiles_dict_def)
qed

lemma profiles_or_empty:
  assumes "map_of d ''profiles'' = Some (JObj ps)"
  shows "py_or (dict_get d ''profiles'') (JObj []) = JObj ps"
  using assms by (simp add: py_or_def dict_get_def)


text \<open>
  C2, as stated for every payload, fails. After the profile entry is stored the payload
  is mirrored at the top level of the document with \<open>data.update(payload)\<close>, so a
  payload that has a key \<open>profiles\<close> itself replaces the whole profiles map: here the
  write of profile \<open>a\<close> leaves a document with no entry for \<open>a\<close> and without the
  entry of profile \<open>b\<close>.
\<close>

theorem save_results_profile_overwritten_by_payload:
  "save_results_profile
     (Parsed (JObj [(''profiles'', JObj [(''b'', JObj [(''scanned'', JInt 1)])]),
                    (''activeProfile'', JStr ''b''), (''scanned'', JInt 1)]))
     ''a'' [(''profiles'', JObj [])]
   = Inr (Parsed (JObj [(''profiles'', JObj []), (''activeProfile'', JStr ''a'')]))"
  by (simp add: save_results_profile_def load_all_results_def json_load_or_empty_def
      has_profiles_dict_def py_or_def dict_get_def dict_update_def reserved_keys_def)

lemma save_then_profiles:
  assumes v: "fst ` set v \<inter> reserved_keys = {}"
    and ld: "load_all_results f = Inr d"
    and ps: "py_or (dict_get d ''profiles'') (JObj []) = JObj ps"
  shows "\<exists>d'. save_results_profile f p v = Inr (Parsed (JObj d')) \<and>
           load_all_results (Parsed (JObj d')) = Inr d' \<and>
           map_of d' ''activeProfile'' = Some (JStr p) \<and>
           map_of d' ''profiles'' = Some (JObj (AList.update p (JObj v) ps))"
proof -
  let ?d' = "dict_update
                  (AList.restrict reserved_keys
                     (AList.update ''activeProfile'' (JStr p)
                        (AList.update ''profiles'' (JObj (AList.update p (JObj v) ps)) d))) v"
  from v have nin: "''profiles'' \<notin> fst ` set v" "''activeProfile'' \<notin> fst ` set v"
    by (auto simp: reserved_keys_def)
  have sv: "save_results_profile f p v = Inr (Parsed (JObj ?d'))"
    using ld ps by (rule save_results_profile_ok)
  have pr: "map_of ?d' ''profiles'' = Some (JObj (AList.update p (JObj v) ps))"
    using written_document_lookup [OF nin(1)] by simp
  have ac: "map_of ?d' ''activeProfile'' = Some (JStr p)"
    using written_document_lookup [OF nin(2)] by simp
  from pr have "load_all_results (Parsed (JObj ?d')) = Inr ?d'" by (rule load_profiled)
  with sv pr ac show ?thesis by blast
qed

text \<open>
  C2, amended: for every payload \<open>v\<close> that has neither of the top-level keys
  \<open>profiles\<close> and \<open>activeProfile\<close> (every result of \<open>make_payload\<close> is such a
  payload), every existing ProfileStore document and every profile id \<open>p\<close>, the write
  succeeds, replaces only the entry of \<open>p\<close> in the profiles map, sets
  \<open>activeProfile\<close> to \<open>p\<close> and leaves the entry of every other profile unchanged;
  and writing profile \<open>p\<close>, then another profile \<open>b\<close> (with such a payload too), then
  loading, finds the payload of \<open>p\<close> unchanged.
\<close>

theorem save_results_profile_isolation:
  assumes v: "fst ` set v \<inter> reserved_keys = {}"
  shows "(map_of d ''profiles'' = Some (JObj ps) \<longrightarrow>
            (\<exists>d' ps'. save_results_profile (Parsed (JObj d)) p v = Inr (Parsed (JObj d')) \<and>
               load_all_results (Parsed (JObj d')) = Inr d' \<and>
               map_of d' ''activeProfile'' = Some (JStr p) \<and>
               map_of d' ''profiles'' = Some (JObj ps') \<and>
               map_of ps' p = Some (JObj v) \<and>
               (\<forall>q. q \<noteq> p \<longrightarrow> map_of ps' q = map_of ps q)))
       \<and> (fst ` set vb \<inter> reserved_keys = {} \<and> b \<noteq> p \<and> save_results_profile f p v = Inr f1 \<longrightarrow>
            (\<exists>f2 d2 ps2. save_results_profile f1 b vb = Inr f2 \<and>
               load_all_results f2 = Inr d2 \<and>
               map_of d2 ''profiles'' = Some (JObj ps2) \<and>
               map_of ps2 p = Some (JObj v) \<and>
               map_of ps2 b = Some (JObj vb)))"
proof (intro conjI impI)
  assume d: "map_of d ''profiles'' = Some (JObj ps)"
  from save_then_profiles [OF v load_profiled [OF d] profiles_or_empty [OF d], of p]
  obtain d' where d': "save_results_profile (Parsed (JObj d)) p v = Inr (Parsed (JObj d'))"
      "load_all_results (Parsed (JObj d')) = Inr d'"
      "map_of d' ''activeProfile'' = Some (JStr p)"
      "map_of d' ''profiles'' = Some (JObj (AList.update p (JObj v) ps))"
    by blast
  have "map_of (AList.update p (JObj v) ps) p = Some (JObj v)"
    by (simp add: update_conv')
  moreover have "\<forall>q. q \<noteq> p \<longrightarrow> map_of (AList.update p (JObj v) ps) q = map_of ps q"
    by (simp add: update_conv')
  ultimately show "\<exists>d' ps'. save_results_profile (Parsed (JObj d)) p v = Inr (Parsed (JObj d')) \<and>
               load_all_results (Parsed (JObj d')) = Inr d' \<and>
               map_of d' ''activeProfile'' = Some (JStr p) \<and>
               map_of d' ''profiles'' = Some (JObj ps') \<and>
               map_of ps' p = Some (JObj v) \<and>
               (\<forall>q. q \<noteq> p \<longrightarrow> map_of ps' q = map_of ps q)"
    using d' by blast
next
  assume a: "fst ` set vb \<inter> reserved_keys = {} \<and> b \<noteq> p \<and> save_results_profile f p v = Inr f1"
  then have vb: "fst ` set vb \<inter> reserved_keys = {}" and bp: "b \<noteq> p"
    and s1: "save_results_profile f p v = Inr f1" by simp_all
  from save_results_profile_Inr [OF s1] obtain d0 ps0 where
      l0: "load_all_results f = Inr d0"
      and p0: "py_or (dict_get d0 ''profiles'') (JObj []) = JObj ps0"
    by blast
  from save_then_profiles [OF v l0 p0, of p] s1
  obtain d1 where f1: "f1 = Parsed (JObj d1)"
      and l1: "load_all_results (Parsed (JObj d1)) = Inr d1"
      and p1: "map_of d1 ''profiles'' = Some (JObj (AList.update p (JObj v) ps0))"
    by auto
  from save_then_profiles [OF vb l1 profiles_or_empty [OF p1], of b]
  obtain d2 where s2: "save_results_profile (Parsed (JObj d1)) b vb = Inr (Parsed (JObj d2))"
      and l2: "load_all_results (Parsed (JObj d2)) = Inr d2"
      and p2: "map_of d2 ''profiles'' =
                 Some (JObj (AList.update b (JObj vb) (AList.update p (JObj v) ps0)))"
    by blast
  have "map_of (AList.update b (JObj vb) (AList.update p (JObj v) ps0)) p = Some (JObj v)"
    using bp by (simp add: update_conv')
  moreover have "map_of (AList.update b (JObj vb) (AList.update p (JObj v) ps0)) b = Some (JObj vb)"
    by (simp add: update_conv')
  ultimately show "\<exists>f2 d2 ps2. save_results_profile f1 b vb = Inr f2 \<and>
               load_all_results f2 = Inr d2 \<and>
               map_of d2 ''profiles'' = Some (JObj ps2) \<and>
               map_of ps2 p = Some (JObj v) \<and>
               map_of ps2 b = Some (JObj vb)"
    using s2 l2 p2 f1 by blast
qed


text \<open>
  C10: after a write that returned, the document maps every key other than
  \<open>profiles\<close> and \<open>activeProfile\<close> to what the payload just written maps it to (so a
  key of an earlier mirror that the payload does not have is gone), and every key of the
  payload is at the top level with the payload's value.
\<close>

theorem save_results_profile_mirror:
  assumes sv: "save_results_profile f p v = Inr f'"
    and dv: "distinct (map fst v)"
  shows "\<exists>d'. f' = Parsed (JObj d') \<and>
           (\<forall>k. k \<notin> reserved_keys \<longrightarrow> map_of d' k = map_of v k) \<and>
           (\<forall>k x. map_of v k = Some x \<longrightarrow> map_of d' k = Some x)"
proof -
  from save_results_profile_Inr [OF sv] obtain d ps where
    f': "f' = Parsed (JObj (dict_update
                  (AList.restrict reserved_keys
                     (AList.update ''activeProfile'' (JStr p)
                        (AList.update ''profiles'' (JObj (AList.update p (JObj v) ps)) d))) v))"
    by blast
  let ?d3 = "AList.restrict reserved_keys
                     (AList.update ''activeProfile'' (JStr p)
                        (AList.update ''profiles'' (JObj (AList.update p (JObj v) ps)) d))"
  have m: "map_of (dict_update ?d3 v) = map_of ?d3 ++ map_of v"
    using dv by (rule map_of_dict_update_distinct)
  have "map_of (dict_update ?d3 v) k = map_of v k" if "k \<notin> reserved_keys" for k
    using that by (simp add: m map_add_def restr_conv' split: option.splits)
  moreover have "map_of (dict_update ?d3 v) k = Some x" if "map_of v k = Some x" for k x
    using that by (simp add: m map_add_def)
  ultimately show ?thesis using f' by blast
qed


theorem save_results_profile_isolation_witness:
  "fst ` set [(''scanned'', JInt 1)] \<inter> reserved_keys = {}
   \<and> map_of [(''profiles'', JObj [(''b'', JObj [(''scanned'', JInt 7)])]),
              (''activeProfile'', JStr ''b''), (''scanned'', JInt 7)] ''profiles''
       = Some (JObj [(''b'', JObj [(''scanned'', JInt 7)])])
   \<and> (\<exists>d' ps'. save_results_profile
         (Parsed (JObj [(''profiles'', JObj [(''b'', JObj [(''scanned'', JInt 7)])]),
                        (''activeProfile'', JStr ''b''), (''scanned'', JInt 7)]))
         ''a'' [(''scanned'', JInt 1)] = Inr (Parsed (JObj d')) \<and>
       load_all_results (Parsed (JObj d')) = Inr d' \<and>
       map_of d' ''activeProfile'' = Some (JStr ''a'') \<and>
       map_of d' ''profiles'' = Some (JObj ps') \<and>
       map_of ps' ''a'' = Some (JObj [(''scanned'', JInt 1)]) \<and>
       (\<forall>q. q \<noteq> ''a'' \<longrightarrow> map_of ps' q = map_of [(''b'', JObj [(''scanned'', JInt 7)])] q))
   \<and> fst ` set [(''scanned'', JInt 2)] \<inter> reserved_keys = {}
   \<and> ''b'' \<noteq> ''a''
   \<and> save_results_profile Missing ''a'' [(''scanned'', JInt 1)]
       = Inr (Parsed (JObj [(''profiles'', JObj [(''a'', JObj [(''scanned'', JInt 1)])]),
                            (''activeProfile'', JStr ''a''), (''scanned'', JInt 1)]))
   \<and> (\<exists>f2 d2 ps2. save_results_profile
         (Parsed (JObj [(''profiles'', JObj [(''a'', JObj [(''scanned'', JInt 1)])]),
                        (''activeProfile'', JStr ''a''), (''scanned'', JInt 1)]))
         ''b'' [(''scanned'', JInt 2)] = Inr f2 \<and>
       load_all_results f2 = Inr d2 \<and>
       map_of d2 ''profiles'' = Some (JObj ps2) \<and>
       map_of ps2 ''a'' = Some (JObj [(''scanned'', JInt 1)]) \<and>
       map_of ps2 ''b'' = Some (JObj [(''scanned'', JInt 2)]))"
proof -
  have h1: "fst ` set [(''scanned'', JInt 1)] \<inter> reserved_keys = {}"
    by (simp add: reserved_keys_def)
  have h2: "map_of [(''profiles'', JObj [(''b'', JObj [(''scanned'', JInt 7)])]),
              (''activeProfile'', JStr ''b''), (''scanned'', JInt 7)] ''profiles''
       = Some (JObj [(''b'', JObj [(''scanned'', JInt 7)])])"
    by simp
  have h3: "fst ` set [(''scanned'', JInt 2)] \<inter> reserved_keys = {}"
    by (simp add: reserved_keys_def)
  have h4: "''b'' \<noteq> ''a''" by simp
  have h5: "save_results_profile Missing ''a'' [(''scanned'', JInt 1)]
       = Inr (Parsed (JObj [(''profiles'', JObj [(''a'', JObj [(''scanned'', JInt 1)])]),
                            (''activeProfile'', JStr ''a''), (''scanned'', JInt 1)]))"
    by (simp add: save_results_profile_def load_all_results_def json_load_or_empty_def
        has_profiles_dict_def py_or_def dict_get_def dict_update_def reserved_keys_def
        empty_store_def)
  from save_results_profile_isolation [OF h1,
      where d = "[(''profiles'', JObj [(''b'', JObj [(''scanned'', JInt 7)])]),
                  (''activeProfile'', JStr ''b''), (''scanned'', JInt 7)]"
        and ps = "[(''b'', JObj [(''scanned'', JInt 7)])]"
        and p = "''a''" and vb = "[(''scanned'', JInt 2)]" and b = "''b''"
        and f = Missing
        and ?f1.0 = "Parsed (JObj [(''profiles'', JObj [(''a'', JObj [(''scanned'', JInt 1)])]),
                            (''activeProfile'', JStr ''a''), (''scanned'', JInt 1)])"]
    h1 h2 h3 h4 h5
  show ?thesis by blast
qed


theorem save_results_profile_mirror_witness:
  "save_results_profile
     (Parsed (JObj [(''profiles'', JObj [(''b'', JObj [(''total'', JInt 7)])]),
                    (''activeProfile'', JStr ''b''), (''total'', JInt 7)]))
     ''a'' [(''scanned'', JInt 1)]
   = Inr (Parsed (JObj [(''profiles'', JObj [(''b'', JObj [(''total'', JInt 7)]),
                                             (''a'', JObj [(''scanned'', JInt 1)])]),
                        (''activeProfile'', JStr ''a''), (''scanned'', JInt 1)]))
   \<and> distinct (map fst [(''scanned'', JInt 1)])
   \<and> (\<exists>d'. Parsed (JObj [(''profiles'', JObj [(''b'', JObj [(''total'', JInt 7)]),
                                               (''a'', JObj [(''scanned'', JInt 1)])]),
                          (''activeProfile'', JStr ''a''), (''scanned'', JInt 1)])
             = Parsed (JObj d') \<and>
           (\<forall>k. k \<notin> reserved_keys \<longrightarrow> map_of d' k = map_of [(''scanned'', JInt 1)] k) \<and>
           (\<forall>k x. map_of [(''scanned'', JInt 1)] k = Some x \<longrightarrow> map_of d' k = Some x))"
proof -
  have h1: "save_results_profile
     (Parsed (JObj [(''profiles'', JObj [(''b'', JObj [(''total'', JInt 7)])]),
                    (''activeProfile'', JStr ''b''), (''total'', JInt 7)]))
     ''a'' [(''scanned'', JInt 1)]
   = Inr (Parsed (JObj [(''profiles'', JObj [(''b'', JObj [(''total'', JInt 7)]),
                                             (''a'', JObj [(''scanned'', JInt 1)])]),
                        (''activeProfile'', JStr ''a''), (''scanned'', JInt 1)]))"
    by (simp add: save_results_profile_def load_all_results_def json_load_or_empty_def
        has_profiles_dict_def py_or_def dict_get_def dict_update_def reserved_keys_def)
  have h2: "distinct (map fst [(''scanned'', JInt 1)])" by simp
  from save_results_profile_mirror [OF h1 h2] h1 h2 show ?thesis by blast
qed


section \<open>Properties of the payload\<close>

lemma duplicates_extra:
  fixes counts :: "(string \<times> int) list"
  shows "map (\<lambda>(n, k). (n, k, max 0 (k - 1))) (filter (\<lambda>(n, k). 1 < k) counts)
   = map (\<lambda>(n, k). (n, k, k - 1)) (filter (\<lambda>(n, k). 1 < k) counts)"
proof (rule map_cong)
  show "filter (\<lambda>(n, k). 1 < k) counts = filter (\<lambda>(n, k). 1 < k) counts"
    by (rule refl)
next
  fix x :: "string \<times> int"
  assume "x \<in> set (filter (\<lambda>(n, k). 1 < k) counts)"
  then have k: "1 < snd x" by auto
  show "(case x of (n, k) \<Rightarrow> (n, k, max 0 (k - 1))) = (case x of (n, k) \<Rightarrow> (n, k, k - 1))"
    using k by (simp add: case_prod_unfold)
qed

text \<open>
  C5: the summary fields are functions of \<open>counts\<close>: \<open>needed\<close> lists the names with
  count at most 0, \<open>duplicates\<close> the names with count above 1, each with
  \<open>extra = count - 1\<close>, \<open>totalDuplicates\<close> is the sum of the extras and
  \<open>totalFoundItems\<close> the sum of all counts; and the scenario
  \<open>{"A": 0, "B": 2, "C": 5}\<close>.
\<close>

theorem make_payload_summary:
  "map_of (make_payload now cv2 names counts scanned) ''counts''
     = Some (JObj (map (\<lambda>(n, k). (n, JInt k)) counts))
   \<and> map_of (make_payload now cv2 names counts scanned) ''needed''
     = Some (JList (map JStr (map fst (filter (\<lambda>(n, k). k \<le> 0) counts))))
   \<and> map_of (make_payload now cv2 names counts scanned) ''duplicates''
     = Some (JList (map (\<lambda>(n, k). JObj [(''name'', JStr n), (''count'', JInt k),
                                          (''extra'', JInt (k - 1))])
                        (filter (\<lambda>(n, k). 1 < k) counts)))
   \<and> map_of (make_payload now cv2 names counts scanned) ''totalDuplicates''
     = Some (JInt (sum_list (map (\<lambda>(n, k). k - 1) (filter (\<lambda>(n, k). 1 < k) counts))))
   \<and> map_of (make_payload now cv2 names counts scanned) ''totalFoundItems''
     = Some (JInt (sum_list (map snd counts)))
   \<and> map_of (make_payload now cv2 names [(''A'', 0), (''B'', 2), (''C'', 5)] scanned) ''needed''
     = Some (JList [JStr ''A''])
   \<and> map_of (make_payload now cv2 names [(''A'', 0), (''B'', 2), (''C'', 5)] scanned) ''duplicates''
     = Some (JList [JObj [(''name'', JStr ''B''), (''count'', JInt 2), (''extra'', JInt 1)],
                    JObj [(''name'', JStr ''C''), (''count'', JInt 5), (''extra'', JInt 4)]])
   \<and> map_of (make_payload now cv2 names [(''A'', 0), (''B'', 2), (''C'', 5)] scanned) ''totalDuplicates''
     = Some (JInt 5)
   \<and> map_of (make_payload now cv2 names [(''A'', 0), (''B'', 2), (''C'', 5)] scanned) ''totalFoundItems''
     = Some (JInt 7)"
  unfolding make_payload_def Let_def duplicates_extra
  by (simp add: comp_def case_prod_unfold)


section \<open>Properties of the scan loop\<close>
















section \<open>Properties of the Matcher\<close>

lemma np_where_ge_bounds:
  "(y, x) \<in> set (np_where_ge res rows cols thr) \<Longrightarrow> y < rows \<and> x < cols \<and> thr \<le> res y x"
  by (auto simp: np_where_ge_def)

lemma np_where_ge_member:
  "y < rows \<Longrightarrow> x < cols \<Longrightarrow> thr \<le> res y x \<Longrightarrow> (y, x) \<in> set (np_where_ge res rows cols thr)"
  by (auto simp: np_where_ge_def)

lemma boxes_at_scale_bounds:
  assumes "b \<in> set (boxes_at_scale (rx, ry, W_img, H_img) w h matchTemplate s)"
  shows "MIN_TEMPLATE_WH \<le> width b \<and> MIN_TEMPLATE_WH \<le> height b \<and>
         rx \<le> left b \<and> left b + width b \<le> rx + W_img \<and>
         ry \<le> top_y b \<and> top_y b + height b \<le> ry + H_img"
proof -
  define w_s where "w_s = max 1 (py_int (real_of_int w * s))"
  define h_s where "h_s = max 1 (py_int (real_of_int h * s))"
  from assms have small: "\<not> (w_s < MIN_TEMPLATE_WH \<or> h_s < MIN_TEMPLATE_WH)"
    by (auto simp: boxes_at_scale_def Let_def w_s_def h_s_def split: if_splits)
  from assms have large: "\<not> (w_s > W_img \<or> h_s > H_img)"
    by (auto simp: boxes_at_scale_def Let_def w_s_def h_s_def split: if_splits)
  from assms small large obtain y x where
      yx: "(y, x) \<in> set (np_where_ge (matchTemplate s) (nat (H_img - h_s + 1))
                          (nat (W_img - w_s + 1)) MULTISCALE_THRESHOLD)"
      and b: "b = \<lparr>left = rx + int x, top_y = ry + int y, width = w_s, height = h_s\<rparr>"
    by (auto simp: boxes_at_scale_def Let_def w_s_def h_s_def split: if_splits)
  from np_where_ge_bounds [OF yx] have "y < nat (H_img - h_s + 1)" "x < nat (W_img - w_s + 1)"
    by simp_all
  then have "int y \<le> H_img - h_s" "int x \<le> W_img - w_s" by linarith+
  with small large b show ?thesis by simp
qed

lemma set_multiscale_boxes:
  "set (multiscale_boxes r w h mt ss boxes) =
     set boxes \<union> (\<Union>s\<in>set ss. set (boxes_at_scale r w h mt s))"
  by (induction ss arbitrary: boxes) auto

text \<open>
  C9: for every score map, every list of scale factors (the configured
  \<open>SCALE_FACTORS\<close> among them), every template size and every capture region, each
  candidate box the loop over the scales emits is at least \<open>MIN_TEMPLATE_WH\<close> wide and
  high and lies inside the capture region.
\<close>

theorem multiscale_boxes_within_bounds:
  assumes "b \<in> set (multiscale_boxes (rx, ry, W_img, H_img) w h matchTemplate scales [])"
  shows "MIN_TEMPLATE_WH \<le> width b \<and> MIN_TEMPLATE_WH \<le> height b \<and>
         rx \<le> left b \<and> left b + width b \<le> rx + W_img \<and>
         ry \<le> top_y b \<and> top_y b + height b \<le> ry + H_img"
proof -
  from assms obtain s where
    "b \<in> set (boxes_at_scale (rx, ry, W_img, H_img) w h matchTemplate s)"
    by (auto simp: set_multiscale_boxes)
  then show ?thesis by (rule boxes_at_scale_bounds)
qed

theorem multiscale_boxes_within_bounds_witness:
  "\<lparr>left = 2, top_y = 3, width = 12, height = 12\<rparr>
     \<in> set (multiscale_boxes (0, 0, 20, 20) 16 16 (peak_at 3 2) SCALE_FACTORS [])
   \<and> MIN_TEMPLATE_WH \<le> 12 \<and> (0::int) \<le> 2 \<and> (2::int) + 12 \<le> 0 + 20
   \<and> (0::int) \<le> 3 \<and> (3::int) + 12 \<le> 0 + 20"
proof -
  have m: "\<lparr>left = 2, top_y = 3, width = 12, height = 12\<rparr>
     \<in> set (multiscale_boxes (0, 0, 20, 20) 16 16 (peak_at 3 2) SCALE_FACTORS [])"
  proof -
    have "(3, 2) \<in> set (np_where_ge (peak_at 3 2 (75 / 100)) 9 9 MULTISCALE_THRESHOLD)"
      by (rule np_where_ge_member) (simp_all add: peak_at_def MULTISCALE_THRESHOLD_def)
    then have "\<lparr>left = 0 + int 2, top_y = 0 + int 3, width = 12, height = 12\<rparr>
        \<in> set (boxes_at_scale (0, 0, 20, 20) 16 16 (peak_at 3 2) (75 / 100))"
      by (simp add: boxes_at_scale_def py_int_def MIN_TEMPLATE_WH_def Let_def image_iff)
        (rule bexI [of _ "(3, 2)"], simp_all)
    moreover have "(75 / 100 :: real) \<in> set SCALE_FACTORS"
      by (simp add: SCALE_FACTORS_def)
    ultimately show ?thesis
      unfolding set_multiscale_boxes by (intro UnI2 UN_I [of "75 / 100"]) simp_all
  qed
  from multiscale_boxes_within_bounds [OF m] m show ?thesis by simp
qed


section \<open>Properties of the profile resolver\<close>

















end
